theory Spec2Isabelle
  imports Main "HOL-Library.Word" "HOL-Library.Sublist"
begin

unbundle bit_operations_syntax

section \<open>The V4L2 capability shim (webcam-fix/v4l2_cap_hack.c)\<close>

text \<open>
  The source is one preloaded library: a static function pointer \<open>real_ioctl\<close>, the lazy
  resolver \<open>init_real_ioctl\<close> and the interposed \<open>ioctl\<close>. The model follows the C text:
  the static pointer is passed in and returned, the caller's memory is an explicit typed
  store, and every place where the C text leaves the behaviour undefined (a call through
  a null function pointer, a record pointer that does not point to a record, \<open>strstr\<close>
  running off the end of the readable memory without meeting a NUL) is a branch of its
  own.
\<close>

subsection \<open>C types\<close>

text \<open>An \<open>int\<close> is 32 bits, read as two's complement by \<open>sint\<close>.\<close>

type_synonym c_int = "32 word"
type_synonym c_ulong = "64 word"
type_synonym u32 = "32 word"
type_synonym ptr = "64 word"

text \<open>
  \<open>struct v4l2_capability\<close> of \<open>linux/videodev2.h\<close>: \<open>__u8 driver[16]\<close>, \<open>__u8 card[32]\<close>,
  \<open>__u8 bus_info[32]\<close>, \<open>__u32 version\<close>, \<open>__u32 capabilities\<close>, \<open>__u32 device_caps\<close>,
  \<open>__u32 reserved[3]\<close>. The byte arrays are lists of \<open>char\<close> (an 8-bit value in HOL).
\<close>

record v4l2_capability =
  driver :: string
  card :: string
  bus_info :: string
  version :: u32
  capabilities :: u32
  device_caps :: u32
  reserved :: "u32 list"

definition valid_capability :: "v4l2_capability \<Rightarrow> bool" where
  "valid_capability cap =
     (length (driver cap) = 16 \<and> length (card cap) = 32 \<and> length (bus_info cap) = 32
      \<and> length (reserved cap) = 3)"

text \<open>
  The bytes of a \<open>__u32\<close> in memory, lowest address first, on a little-endian machine
  (x86-64, AArch64), and the bytes of the record from \<open>card\<close> to its end, in the order of
  the fields: the memory that a read starting at \<open>cap->card\<close> walks through.
\<close>

definition u32_bytes :: "u32 \<Rightarrow> string" where
  "u32_bytes x =
     [char_of (unat x), char_of (unat (drop_bit 8 x)), char_of (unat (drop_bit 16 x)),
      char_of (unat (drop_bit 24 x))]"

definition bytes_from_card :: "v4l2_capability \<Rightarrow> string" where
  "bytes_from_card cap =
     card cap @ bus_info cap @ u32_bytes (version cap) @ u32_bytes (capabilities cap)
       @ u32_bytes (device_caps cap) @ concat (map u32_bytes (reserved cap))"

text \<open>
  Modelled from the spec: the platform header \<open>linux/videodev2.h\<close> is not part of the
  repository. The spec names "one fixed bit value within the bitmask fields" (the
  output-capability bit), a capture bit \<open>0x00000001\<close> and "one fixed numeric constant"
  for the capability query; the values are the ones the platform publishes.
\<close>

definition V4L2_CAP_VIDEO_CAPTURE :: u32 where
  "V4L2_CAP_VIDEO_CAPTURE = 0x00000001"

definition V4L2_CAP_VIDEO_OUTPUT :: u32 where
  "V4L2_CAP_VIDEO_OUTPUT = 0x00000002"

definition VIDIOC_QUERYCAP :: c_ulong where
  "VIDIOC_QUERYCAP = 0x80685600"

subsection \<open>Memory and the real implementation\<close>

text \<open>
  What a pointer of the caller points to: a capability record, or anything else (the
  argument of an unrelated request), kept as bytes. \<open>trailing w p\<close> is the readable memory
  that follows the record at \<open>p\<close>: the bytes from the end of the record to the end of the
  mapped memory. \<open>rest\<close> is everything the real \<open>ioctl\<close> can read and change that the shim
  never looks at (device and kernel state).
\<close>

datatype obj = Capability v4l2_capability | Bytes string

record 'k world =
  heap :: "ptr \<Rightarrow> obj option"
  trailing :: "ptr \<Rightarrow> string"
  rest :: 'k

text \<open>\<open>int (*real_ioctl)(int fd, unsigned long request, ...)\<close>, called with one pointer.\<close>

type_synonym 'k real_fn = "c_int \<Rightarrow> c_ulong \<Rightarrow> ptr \<Rightarrow> 'k world \<Rightarrow> c_int \<times> 'k world"

text \<open>The function pointer: \<open>None\<close> is \<open>NULL\<close>.\<close>

type_synonym 'k handle = "'k real_fn option"

definition real_ioctl_initial :: "'k handle" where
  "real_ioctl_initial = None"

datatype fault = NullCall | NotARecord | NotAString

subsection \<open>The C library's string functions\<close>

text \<open>
  The string that starts at the first of the given bytes of memory: the bytes before the
  first NUL. \<open>None\<close>: the memory ends before a NUL is met.
\<close>

fun cstring :: "string \<Rightarrow> string option" where
  "cstring [] = None"
| "cstring (c # cs) =
     (if c = CHR 0x00 then Some [] else map_option ((#) c) (cstring cs))"

text \<open>
  \<open>strstr(haystack, needle)\<close> on the two strings: the offset of the first occurrence of
  \<open>needle\<close> in \<open>haystack\<close>, \<open>None\<close> for the null pointer.
\<close>

fun strstr :: "string \<Rightarrow> string \<Rightarrow> nat option" where
  "strstr [] needle = (if needle = [] then Some 0 else None)"
| "strstr (c # cs) needle =
     (if prefix needle (c # cs) then Some 0 else map_option Suc (strstr cs needle))"

fun not_null :: "'a option \<Rightarrow> bool" where
  "not_null None = False"
| "not_null (Some _) = True"

subsection \<open>The resolver\<close>

text \<open>
  \<open>if (!real_ioctl) real_ioctl = dlsym(RTLD_NEXT, "ioctl");\<close> The first argument is what
  \<open>dlsym\<close> returns at this moment.
\<close>

definition init_real_ioctl :: "'k handle \<Rightarrow> 'k handle \<Rightarrow> 'k handle" where
  "init_real_ioctl dlsym_next real_ioctl =
     (case real_ioctl of None \<Rightarrow> dlsym_next | Some f \<Rightarrow> Some f)"

fun resolve_all :: "'k handle list \<Rightarrow> 'k handle \<Rightarrow> 'k handle" where
  "resolve_all [] real_ioctl = real_ioctl"
| "resolve_all (d # ds) real_ioctl = resolve_all ds (init_real_ioctl d real_ioctl)"

subsection \<open>The interposed ioctl\<close>

text \<open>
  The test of the inner \<open>if\<close>: the three \<open>strstr\<close> calls on \<open>(char *)cap->card\<close>. Each reads
  from the first byte of \<open>card\<close> to the first NUL in memory: through \<open>card\<close>, and when its 32
  bytes hold no NUL on through \<open>bus_info\<close>, the numeric fields and the memory \<open>after\<close> the
  record. \<open>None\<close>: the read runs off the end of the readable memory.
\<close>

definition card_matches :: "v4l2_capability \<Rightarrow> string \<Rightarrow> bool option" where
  "card_matches cap after =
     (case cstring (bytes_from_card cap @ after) of
        None \<Rightarrow> None
      | Some s \<Rightarrow>
          Some (not_null (strstr s ''Loopback'') \<or> not_null (strstr s ''NekoCam'')
                \<or> not_null (strstr s ''loopback'')))"

text \<open>The two assignments \<open>cap->capabilities |= ...; cap->device_caps |= ...;\<close>\<close>

definition add_video_output :: "v4l2_capability \<Rightarrow> v4l2_capability" where
  "add_video_output cap =
     cap\<lparr>capabilities := capabilities cap OR V4L2_CAP_VIDEO_OUTPUT,
         device_caps := device_caps cap OR V4L2_CAP_VIDEO_OUTPUT\<rparr>"

text \<open>The body of \<open>if (ret == 0 && request == VIDIOC_QUERYCAP)\<close> on the record.\<close>

definition fix_capability :: "v4l2_capability \<Rightarrow> string \<Rightarrow> fault + v4l2_capability" where
  "fix_capability cap after =
     (case card_matches cap after of
        None \<Rightarrow> Inl NotAString
      | Some m \<Rightarrow> Inr (if m then add_video_output cap else cap))"

text \<open>
  \<open>ioctl(fd, request, arg)\<close>: the result is a fault, or the returned status with the
  static pointer and the world after the call. The block under the \<open>if\<close> works on the
  record in place: the model reads the record through \<open>arg\<close>, runs the block on it and
  stores it back, which changes nothing when the card test fails (\<open>store_same\<close> below).
\<close>

definition ioctl ::
  "'k handle \<Rightarrow> 'k handle \<Rightarrow> c_int \<Rightarrow> c_ulong \<Rightarrow> ptr \<Rightarrow> 'k world
     \<Rightarrow> fault + (c_int \<times> 'k handle \<times> 'k world)" where
  "ioctl dlsym_next real_ioctl fd request arg w =
     (case init_real_ioctl dlsym_next real_ioctl of
        None \<Rightarrow> Inl NullCall
      | Some f \<Rightarrow>
          (case f fd request arg w of
             (ret, w1) \<Rightarrow>
               if ret = 0 \<and> request = VIDIOC_QUERYCAP then
                 (case heap w1 arg of
                    Some (Capability cap) \<Rightarrow>
                      (case fix_capability cap (trailing w1 arg) of
                         Inl e \<Rightarrow> Inl e
                       | Inr cap' \<Rightarrow>
                           Inr (ret, Some f, w1\<lparr>heap := (heap w1)(arg \<mapsto> Capability cap')\<rparr>))
                  | _ \<Rightarrow> Inl NotARecord)
               else Inr (ret, Some f, w1)))"

subsection \<open>A process: a sequence of calls\<close>

text \<open>
  Each call comes with what \<open>dlsym\<close> would return at that moment. A fault ends the run.
\<close>

fun ioctl_calls ::
  "'k handle \<Rightarrow> 'k world \<Rightarrow> ('k handle \<times> c_int \<times> c_ulong \<times> ptr) list
     \<Rightarrow> fault + (c_int list \<times> 'k handle \<times> 'k world)" where
  "ioctl_calls real_ioctl w [] = Inr ([], real_ioctl, w)"
| "ioctl_calls real_ioctl w ((dlsym_next, fd, request, arg) # cs) =
     (case ioctl dlsym_next real_ioctl fd request arg w of
        Inl e \<Rightarrow> Inl e
      | Inr (ret, real_ioctl', w') \<Rightarrow>
          (case ioctl_calls real_ioctl' w' cs of
             Inl e \<Rightarrow> Inl e
           | Inr (rets, h, w'') \<Rightarrow> Inr (ret # rets, h, w'')))"

subsection \<open>Concrete devices and calls\<close>

text \<open>
  A real implementation that stores \<open>x\<close> through the argument pointer and returns \<open>ret\<close>;
  a world with nothing stored and no readable memory after any record; a capture-only
  loopback record with a given card array (the name, then NUL bytes up to 32: none for a
  name of 32 bytes).
\<close>

definition driver_reply :: "c_int \<Rightarrow> obj \<Rightarrow> unit real_fn" where
  "driver_reply ret x = (\<lambda>fd request arg w. (ret, w\<lparr>heap := (heap w)(arg \<mapsto> x)\<rparr>))"

definition world0 :: "unit world" where
  "world0 = \<lparr>heap = Map.empty, trailing = (\<lambda>p. []), rest = ()\<rparr>"

definition cap_with_card :: "string \<Rightarrow> v4l2_capability" where
  "cap_with_card name =
     \<lparr>driver = ''v4l2 loopback'' @ replicate 3 (CHR 0x00),
      card = name @ replicate (32 - length name) (CHR 0x00),
      bus_info = ''platform:v4l2loopback-000'' @ replicate 7 (CHR 0x00),
      version = 0x00060C00, capabilities = 0x85200001, device_caps = 0x05200001,
      reserved = [0, 0, 0]\<rparr>"

definition stale_loopback_cap :: v4l2_capability where
  "stale_loopback_cap = cap_with_card (''Cam'' @ [CHR 0x00] @ ''Loopback'')"

definition stale_nekocam_cap :: v4l2_capability where
  "stale_nekocam_cap = cap_with_card (''Cam'' @ [CHR 0x00] @ ''NekoCam'')"

text \<open>A card array filled by a name of 32 bytes: the string runs on into \<open>bus_info\<close>.\<close>

definition full_length_cap :: v4l2_capability where
  "full_length_cap = cap_with_card ''Dummy Video Loopback Device 0001''"

section \<open>Properties\<close>

subsection \<open>Helper facts\<close>

lemma not_null_map_option: "not_null (map_option g x) = not_null x"
  by (cases x) simp_all

lemma strstr_found_iff: "not_null (strstr hs nd) = sublist nd hs"
  by (induction hs) (auto simp: sublist_Cons_right not_null_map_option)

lemma cstring_takeWhile:
  "cstring bs = (if CHR 0x00 \<in> set bs then Some (takeWhile (\<lambda>c. c \<noteq> CHR 0x00) bs) else None)"
  by (induction bs) auto

lemma cstring_append:
  "cstring (xs @ ys) =
     (case cstring xs of Some s \<Rightarrow> Some s | None \<Rightarrow> map_option ((@) xs) (cstring ys))"
  by (cases "cstring ys"; induction xs) (auto split: option.splits)

text \<open>The byte order: the four bytes of \<open>0x6B636162\<close> in memory spell "back".\<close>

lemma u32_bytes_example: "u32_bytes 0x6B636162 = ''back''"
  by (simp add: u32_bytes_def char_of_def drop_bit_eq_div bit_iff_odd)

lemma cstring_in_card:
  "cstring (card cap) = Some s \<Longrightarrow> cstring (bytes_from_card cap @ after) = Some s"
  by (simp add: bytes_from_card_def cstring_append)

lemma takeWhile_prefix_append: "prefix (takeWhile P xs) (takeWhile P (xs @ ys))"
  by (induction xs) auto

lemma sublist_before_nul:
  assumes "sublist nd (takeWhile (\<lambda>c. c \<noteq> CHR 0x00) (card cap))"
    and "CHR 0x00 \<in> set (bytes_from_card cap @ after)"
  shows "\<exists>s. cstring (bytes_from_card cap @ after) = Some s \<and> sublist nd s"
proof -
  let ?P = "\<lambda>c. c \<noteq> CHR 0x00"
  have "bytes_from_card cap @ after = card cap @ (drop (length (card cap)) (bytes_from_card cap) @ after)"
    by (simp add: bytes_from_card_def)
  then have "prefix (takeWhile ?P (card cap)) (takeWhile ?P (bytes_from_card cap @ after))"
    using takeWhile_prefix_append [of ?P "card cap"] by metis
  with assms(1) have "sublist nd (takeWhile ?P (bytes_from_card cap @ after))"
    by (meson prefix_imp_sublist sublist_order.order_trans)
  with assms(2) show ?thesis by (simp add: cstring_takeWhile)
qed

lemma card_matches_string:
  "cstring (bytes_from_card cap @ after) = Some s \<Longrightarrow>
   card_matches cap after
     = Some (sublist ''Loopback'' s \<or> sublist ''NekoCam'' s \<or> sublist ''loopback'' s)"
  by (simp add: card_matches_def strstr_found_iff)

lemma card_matches_defined:
  "(\<exists>m. card_matches cap after = Some m) = (CHR 0x00 \<in> set (bytes_from_card cap @ after))"
  by (auto simp: card_matches_def cstring_takeWhile)

lemma fix_capability_matches:
  "card_matches cap after = Some m \<Longrightarrow>
   fix_capability cap after = Inr (if m then add_video_output cap else cap)"
  by (simp add: fix_capability_def)

lemma ioctl_resolved:
  assumes "init_real_ioctl dl h = Some f" and "f fd request arg w = (ret, w1)"
  shows "ioctl dl h fd request arg w =
     (if ret = 0 \<and> request = VIDIOC_QUERYCAP then
        (case heap w1 arg of
           Some (Capability cap) \<Rightarrow>
             (case fix_capability cap (trailing w1 arg) of
                Inl e \<Rightarrow> Inl e
              | Inr cap' \<Rightarrow> Inr (ret, Some f, w1\<lparr>heap := (heap w1)(arg \<mapsto> Capability cap')\<rparr>))
         | _ \<Rightarrow> Inl NotARecord)
      else Inr (ret, Some f, w1))"
  using assms by (simp add: ioctl_def)

lemma store_same: "heap w arg = Some x \<Longrightarrow> w\<lparr>heap := (heap w)(arg \<mapsto> x)\<rparr> = w"
  by (simp add: map_upd_triv)

lemma or_sets_mask: "(x OR m) AND m = (m :: u32)"
  by (auto simp: bit_eq_iff bit_and_iff bit_or_iff)

lemma or_keeps_rest: "(x OR m) AND NOT m = x AND NOT (m :: u32)"
  by (auto simp: bit_eq_iff bit_and_iff bit_or_iff bit_not_iff)

lemma or_keeps_old: "x AND (x OR m) = (x :: u32)"
  by (auto simp: bit_eq_iff bit_and_iff bit_or_iff)

lemma init_resolved: "init_real_ioctl d (Some f) = Some f"
  by (simp add: init_real_ioctl_def)

lemma init_first: "init_real_ioctl (Some f) real_ioctl_initial = Some f"
  by (simp add: init_real_ioctl_def real_ioctl_initial_def)


text \<open>The concrete records: the string each holds from \<open>card\<close> on.\<close>

lemma cstring_cap_with_card:
  "CHR 0x00 \<notin> set name \<Longrightarrow> length name < 32 \<Longrightarrow>
   cstring (bytes_from_card (cap_with_card name) @ after) = Some name"
proof -
  assume n: "CHR 0x00 \<notin> set name" and l: "length name < 32"
  from l obtain k where k: "32 - length name = Suc k"
    by (cases "32 - length name") auto
  from n have "cstring (name @ CHR 0x00 # replicate k (CHR 0x00)) = Some name"
    by (induction name) auto
  with k have "cstring (card (cap_with_card name)) = Some name"
    by (simp add: cap_with_card_def)
  then show ?thesis by (rule cstring_in_card)
qed

lemma cstring_full_length_cap:
  "cstring (bytes_from_card full_length_cap @ after)
     = Some (''Dummy Video Loopback Device 0001'' @ ''platform:v4l2loopback-000'')"
  by (simp add: full_length_cap_def cap_with_card_def bytes_from_card_def cstring_append
      eval_nat_numeral)

lemma trailing_world0: "trailing world0 p = []"
  by (simp add: world0_def)

lemma card_matches_named:
  "CHR 0x00 \<notin> set name \<Longrightarrow> length name < 32 \<Longrightarrow>
   card_matches (cap_with_card name) after
     = Some (sublist ''Loopback'' name \<or> sublist ''NekoCam'' name \<or> sublist ''loopback'' name)"
  by (simp add: card_matches_string cstring_cap_with_card)

lemma add_video_output_cap_with_card:
  "add_video_output (cap_with_card name)
     = (cap_with_card name)\<lparr>capabilities := 0x85200003, device_caps := 0x05200003\<rparr>"
  by (simp add: add_video_output_def cap_with_card_def V4L2_CAP_VIDEO_OUTPUT_def)

lemma driver_reply_world0:
  "driver_reply r x fd request arg world0 = (r, world0\<lparr>heap := (heap world0)(arg \<mapsto> x)\<rparr>)"
  by (simp add: driver_reply_def)

lemma replied_world0:
  "heap (world0\<lparr>heap := (heap world0)(arg \<mapsto> x)\<rparr>) arg = Some x"
  "trailing (world0\<lparr>heap := (heap world0)(arg \<mapsto> x)\<rparr>) p = []"
  by (simp_all add: world0_def)

text \<open>\<open>strstr\<close> finds the first occurrence.\<close>

lemma strstr_first_occurrence:
  "strstr hs nd = Some i \<Longrightarrow>
     i \<le> length hs \<and> prefix nd (drop i hs) \<and> (\<forall>j<i. \<not> prefix nd (drop j hs))"
proof (induction hs arbitrary: i)
  case Nil
  then show ?case by (simp split: if_splits)
next
  case (Cons c cs)
  show ?case
  proof (cases "prefix nd (c # cs)")
    case True
    with Cons.prems show ?thesis by simp
  next
    case False
    with Cons.prems obtain k where k: "strstr cs nd = Some k" and i: "i = Suc k"
      by auto
    from Cons.IH [OF k] have ih: "k \<le> length cs" "prefix nd (drop k cs)"
      "\<forall>j<k. \<not> prefix nd (drop j cs)" by simp_all
    have "\<not> prefix nd (drop j (c # cs))" if "j < i" for j
    proof (cases j)
      case 0
      with False show ?thesis by simp
    next
      case (Suc j')
      with that i ih(3) show ?thesis by simp
    qed
    with ih i show ?thesis by simp
  qed
qed

lemma ioctl_keeps_handle:
  "ioctl d (Some f) fd request arg w = Inr (r, h', w') \<Longrightarrow> h' = Some f"
  by (auto simp: ioctl_def init_real_ioctl_def
      split: prod.splits if_splits option.splits obj.splits sum.splits)

lemma ioctl_ignores_dlsym:
  "ioctl d (Some f) fd request arg w = ioctl d' (Some f) fd request arg w"
  by (simp add: ioctl_def init_real_ioctl_def)

lemma ioctl_calls_keep_handle:
  "ioctl_calls (Some f) w cs = Inr (rs, h', w') \<Longrightarrow> h' = Some f"
proof (induction cs arbitrary: w rs)
  case Nil
  then show ?case by simp
next
  case (Cons c cs)
  obtain d fd request arg where c: "c = (d, fd, request, arg)"
    by (cases c) auto
  from Cons.prems c obtain r h1 w1 rs1
    where step: "ioctl d (Some f) fd request arg w = Inr (r, h1, w1)"
      and tl: "ioctl_calls h1 w1 cs = Inr (rs1, h', w')"
    by (auto split: sum.splits prod.splits)
  from step have "h1 = Some f" by (rule ioctl_keeps_handle)
  with tl show ?case using Cons.IH by simp
qed

lemma resolve_all_resolved: "resolve_all ds (Some f) = Some f"
  by (induction ds) (simp_all add: init_resolved)

lemma resolve_all_first:
  "resolve_all ds None = (case find not_null ds of None \<Rightarrow> None | Some d \<Rightarrow> d)"
proof (induction ds)
  case Nil
  then show ?case by simp
next
  case (Cons d ds)
  then show ?case
    by (cases d) (simp_all add: init_real_ioctl_def resolve_all_resolved)
qed

lemma and_or_keeps: "(x OR y) AND z = z" if "x AND z = z" for x y z :: u32
proof -
  have "(x OR y) AND z = (x AND z) OR (y AND z)"
    by (auto simp: bit_eq_iff bit_and_iff bit_or_iff)
  also have "\<dots> = z OR (y AND z)" using that by simp
  also have "\<dots> = z" by (auto simp: bit_eq_iff bit_and_iff bit_or_iff)
  finally show ?thesis .
qed

lemma fix_capability_cases:
  "fix_capability cap after =
     (if CHR 0x00 \<in> set (bytes_from_card cap @ after)
      then Inr (if card_matches cap after = Some True then add_video_output cap else cap)
      else Inl NotAString)"
  by (auto simp: fix_capability_def card_matches_def cstring_takeWhile)




lemma ioctl_first_call:
  "ioctl (Some f) real_ioctl_initial fd request arg w = ioctl d (Some f) fd request arg w"
  by (simp add: ioctl_def init_real_ioctl_def real_ioctl_initial_def)

lemma ioctl_forwards:
  assumes "ioctl d (Some f) fd request arg w = Inr (r, h', w')"
  shows "r = fst (f fd request arg w) \<and> h' = Some f
       \<and> rest w' = rest (snd (f fd request arg w))
       \<and> trailing w' = trailing (snd (f fd request arg w))
       \<and> (\<forall>p. p \<noteq> arg \<longrightarrow> heap w' p = heap (snd (f fd request arg w)) p)"
proof -
  obtain ret w1 where f: "f fd request arg w = (ret, w1)"
    by (cases "f fd request arg w") auto
  note step = ioctl_resolved [OF init_resolved [of d f] f]
  from assms show ?thesis
    by (auto simp: step f split: if_splits option.splits obj.splits sum.splits)
qed

lemma ioctl_forwards_plain:
  assumes "fst (f fd request arg w) \<noteq> 0 \<or> request \<noteq> VIDIOC_QUERYCAP"
  shows "ioctl d (Some f) fd request arg w
     = Inr (fst (f fd request arg w), Some f, snd (f fd request arg w))"
proof -
  obtain ret w1 where f: "f fd request arg w = (ret, w1)"
    by (cases "f fd request arg w") auto
  note step = ioctl_resolved [OF init_resolved [of d f] f]
  from assms show ?thesis
    by (auto simp: step f)
qed

lemma ioctl_calls_first_call:
  "ioctl_calls real_ioctl_initial w ((Some f, fd, request, arg) # cs)
     = ioctl_calls (Some f) w ((d, fd, request, arg) # cs)"
  by (simp add: ioctl_first_call [of f fd request arg w d])

subsection \<open>The claims\<close>

text \<open>
  C1 (as amended): for every capability query where the delegate returns 0 and the
  record's card array contains "Loopback" before its first NUL byte (anywhere in its 32
  bytes when it holds no NUL; the memory from \<open>card\<close> on must then hold a NUL further on,
  or the search runs off the end of the memory), the shim returns 0 and leaves at the
  argument pointer the record with \<open>V4L2_CAP_VIDEO_OUTPUT\<close> set in \<open>capabilities\<close> and in
  \<open>device_caps\<close>; every other bit of both fields is as the real implementation produced
  it.
\<close>

theorem querycap_loopback_adds_output:
  assumes "init_real_ioctl dl h = Some f"
    and "f fd VIDIOC_QUERYCAP arg w = (0, w1)"
    and "heap w1 arg = Some (Capability cap)"
    and "sublist ''Loopback'' (takeWhile (\<lambda>c. c \<noteq> CHR 0x00) (card cap))"
    and "CHR 0x00 \<in> set (bytes_from_card cap @ trailing w1 arg)"
  shows "ioctl dl h fd VIDIOC_QUERYCAP arg w =
           Inr (0, Some f, w1\<lparr>heap := (heap w1)(arg \<mapsto> Capability (add_video_output cap))\<rparr>)
       \<and> capabilities (add_video_output cap) AND V4L2_CAP_VIDEO_OUTPUT = V4L2_CAP_VIDEO_OUTPUT
       \<and> device_caps (add_video_output cap) AND V4L2_CAP_VIDEO_OUTPUT = V4L2_CAP_VIDEO_OUTPUT
       \<and> capabilities (add_video_output cap) AND NOT V4L2_CAP_VIDEO_OUTPUT
           = capabilities cap AND NOT V4L2_CAP_VIDEO_OUTPUT
       \<and> device_caps (add_video_output cap) AND NOT V4L2_CAP_VIDEO_OUTPUT
           = device_caps cap AND NOT V4L2_CAP_VIDEO_OUTPUT"
proof -
  from sublist_before_nul [OF assms(4,5)] obtain s
    where s: "cstring (bytes_from_card cap @ trailing w1 arg) = Some s"
      and l: "sublist ''Loopback'' s"
    by blast
  have m: "card_matches cap (trailing w1 arg) = Some True"
    using l by (simp add: card_matches_string [OF s])
  have "ioctl dl h fd VIDIOC_QUERYCAP arg w =
           Inr (0, Some f, w1\<lparr>heap := (heap w1)(arg \<mapsto> Capability (add_video_output cap))\<rparr>)"
    using assms(3) by (simp add: ioctl_resolved [OF assms(1,2)] fix_capability_matches [OF m])
  then show ?thesis
    by (simp add: add_video_output_def or_sets_mask or_keeps_rest)
qed

theorem querycap_loopback_adds_output_witness:
  "sublist ''Loopback'' (takeWhile (\<lambda>c. c \<noteq> CHR 0x00) (card (cap_with_card ''Dummy Loopback Device'')))
   \<and> ioctl (Some (driver_reply 0 (Capability (cap_with_card ''Dummy Loopback Device''))))
        real_ioctl_initial 7 VIDIOC_QUERYCAP 4096 world0
      = Inr (0, Some (driver_reply 0 (Capability (cap_with_card ''Dummy Loopback Device''))),
             world0\<lparr>heap := (heap world0)(4096 \<mapsto> Capability
               ((cap_with_card ''Dummy Loopback Device'')
                  \<lparr>capabilities := 0x85200003, device_caps := 0x05200003\<rparr>))\<rparr>)
   \<and> valid_capability full_length_cap
   \<and> CHR 0x00 \<notin> set (card full_length_cap)
   \<and> sublist ''Loopback'' (takeWhile (\<lambda>c. c \<noteq> CHR 0x00) (card full_length_cap))
   \<and> ioctl (Some (driver_reply 0 (Capability full_length_cap)))
        real_ioctl_initial 7 VIDIOC_QUERYCAP 4096 world0
      = Inr (0, Some (driver_reply 0 (Capability full_length_cap)),
             world0\<lparr>heap := (heap world0)(4096 \<mapsto> Capability
               (full_length_cap\<lparr>capabilities := 0x85200003, device_caps := 0x05200003\<rparr>))\<rparr>)"
proof -
  let ?c = "cap_with_card ''Dummy Loopback Device''"
  have h1: "init_real_ioctl (Some (driver_reply 0 x)) real_ioctl_initial
      = Some (driver_reply 0 x)" for x :: obj
    by (rule init_first)
  note h2 = driver_reply_world0 [of 0 _ 7 VIDIOC_QUERYCAP 4096]
  have c4: "sublist ''Loopback'' (takeWhile (\<lambda>c. c \<noteq> CHR 0x00) (card ?c))"
    by (simp add: cap_with_card_def eval_nat_numeral sublist_Cons_right)
  have c5: "CHR 0x00 \<in> set (bytes_from_card ?c
      @ trailing (world0\<lparr>heap := (heap world0)(4096 \<mapsto> Capability ?c)\<rparr>) 4096)"
    by (simp add: bytes_from_card_def cap_with_card_def)
  have v: "valid_capability full_length_cap"
    by (simp add: valid_capability_def full_length_cap_def cap_with_card_def)
  have n: "CHR 0x00 \<notin> set (card full_length_cap)"
    by (simp add: full_length_cap_def cap_with_card_def)
  have f4: "sublist ''Loopback'' (takeWhile (\<lambda>c. c \<noteq> CHR 0x00) (card full_length_cap))"
    by (simp add: full_length_cap_def cap_with_card_def sublist_Cons_right)
  have f5: "CHR 0x00 \<in> set (bytes_from_card full_length_cap
      @ trailing (world0\<lparr>heap := (heap world0)(4096 \<mapsto> Capability full_length_cap)\<rparr>) 4096)"
    by (simp add: bytes_from_card_def full_length_cap_def cap_with_card_def)
  have a: "add_video_output full_length_cap
      = full_length_cap\<lparr>capabilities := 0x85200003, device_caps := 0x05200003\<rparr>"
    by (simp add: full_length_cap_def add_video_output_cap_with_card)
  from querycap_loopback_adds_output [OF h1 h2 replied_world0(1) c4 c5]
  have 1: "ioctl (Some (driver_reply 0 (Capability ?c))) real_ioctl_initial 7 VIDIOC_QUERYCAP
        4096 world0
      = Inr (0, Some (driver_reply 0 (Capability ?c)),
             world0\<lparr>heap := (heap world0)(4096 \<mapsto> Capability
               (?c\<lparr>capabilities := 0x85200003, device_caps := 0x05200003\<rparr>))\<rparr>)"
    by (simp add: add_video_output_cap_with_card)
  from querycap_loopback_adds_output [OF h1 h2 replied_world0(1) f4 f5]
  have 2: "ioctl (Some (driver_reply 0 (Capability full_length_cap))) real_ioctl_initial 7
        VIDIOC_QUERYCAP 4096 world0
      = Inr (0, Some (driver_reply 0 (Capability full_length_cap)),
             world0\<lparr>heap := (heap world0)(4096 \<mapsto> Capability
               (full_length_cap\<lparr>capabilities := 0x85200003, device_caps := 0x05200003\<rparr>))\<rparr>)"
    by (simp add: a)
  from c4 1 v n f4 2 show ?thesis by blast
qed

text \<open>
  C1 as stated fails: the card array holding "Cam", a NUL byte, "Loopback" and NUL bytes
  up to 32 contains "Loopback", but \<open>strstr\<close> reads the string "Cam" only, and the record
  comes back without the output bit.
\<close>

theorem loopback_after_nul_unpatched:
  "valid_capability stale_loopback_cap
   \<and> sublist ''Loopback'' (card stale_loopback_cap)
   \<and> capabilities stale_loopback_cap AND V4L2_CAP_VIDEO_OUTPUT = 0
   \<and> ioctl (Some (driver_reply 0 (Capability stale_loopback_cap))) real_ioctl_initial
        7 VIDIOC_QUERYCAP 4096 world0
      = Inr (0, Some (driver_reply 0 (Capability stale_loopback_cap)),
             world0\<lparr>heap := (heap world0)(4096 \<mapsto> Capability stale_loopback_cap)\<rparr>)"
proof -
  have v: "valid_capability stale_loopback_cap"
    by (simp add: valid_capability_def stale_loopback_cap_def cap_with_card_def)
  have s: "sublist ''Loopback'' (card stale_loopback_cap)"
    by (simp add: stale_loopback_cap_def cap_with_card_def sublist_Cons_right)
  have c: "capabilities stale_loopback_cap AND V4L2_CAP_VIDEO_OUTPUT = 0"
    by (simp add: stale_loopback_cap_def cap_with_card_def V4L2_CAP_VIDEO_OUTPUT_def)
  have "cstring (card stale_loopback_cap) = Some ''Cam''"
    by (simp add: stale_loopback_cap_def cap_with_card_def)
  then have "cstring (bytes_from_card stale_loopback_cap @ after) = Some ''Cam''" for after
    by (rule cstring_in_card)
  then have m: "fix_capability stale_loopback_cap after = Inr stale_loopback_cap" for after
    by (simp add: fix_capability_def card_matches_def strstr_found_iff sublist_Cons_right)
  have "ioctl (Some (driver_reply 0 (Capability stale_loopback_cap))) real_ioctl_initial
        7 VIDIOC_QUERYCAP 4096 world0
      = Inr (0, Some (driver_reply 0 (Capability stale_loopback_cap)),
             world0\<lparr>heap := (heap world0)(4096 \<mapsto> Capability stale_loopback_cap)\<rparr>)"
    by (simp add: ioctl_def init_real_ioctl_def real_ioctl_initial_def driver_reply_def m)
  with v s c show ?thesis by simp
qed

text \<open>
  C2: for every request code other than \<open>VIDIOC_QUERYCAP\<close>, every descriptor and every
  argument, the shim returns the status of the real implementation and leaves the world
  (so everything reachable through the argument pointer) exactly as the real
  implementation left it.
\<close>

theorem other_requests_pass_through:
  assumes "init_real_ioctl dl h = Some f"
    and "request \<noteq> VIDIOC_QUERYCAP"
  shows "ioctl dl h fd request arg w
           = Inr (fst (f fd request arg w), Some f, snd (f fd request arg w))"
  using assms(2) ioctl_resolved [OF assms(1), of fd request arg w "fst (f fd request arg w)"
      "snd (f fd request arg w)"]
  by simp

theorem other_requests_pass_through_witness:
  "(0xC0D05604 :: c_ulong) \<noteq> VIDIOC_QUERYCAP
   \<and> ioctl (Some (driver_reply 0 (Capability (cap_with_card ''Dummy Loopback Device''))))
        real_ioctl_initial 7 0xC0D05604 4096 world0
      = Inr (0, Some (driver_reply 0 (Capability (cap_with_card ''Dummy Loopback Device''))),
             world0\<lparr>heap := (heap world0)(4096 \<mapsto>
               Capability (cap_with_card ''Dummy Loopback Device''))\<rparr>)"
proof -
  let ?f = "driver_reply 0 (Capability (cap_with_card ''Dummy Loopback Device''))"
  have r: "(0xC0D05604 :: c_ulong) \<noteq> VIDIOC_QUERYCAP"
    by (simp add: VIDIOC_QUERYCAP_def)
  have h1: "init_real_ioctl (Some ?f) real_ioctl_initial = Some ?f"
    by (rule init_first)
  show ?thesis
    using other_requests_pass_through [OF h1 r, where fd = 7 and arg = 4096 and w = world0] r
    by (simp add: driver_reply_def)
qed

text \<open>
  C3: for every capability query where the real implementation returns a negative status,
  the shim returns that status and the world, with the caller's record in it, is as the
  real implementation left it.
\<close>

theorem failed_querycap_untouched:
  assumes "init_real_ioctl dl h = Some f"
    and "f fd VIDIOC_QUERYCAP arg w = (ret, w1)"
    and "sint ret < 0"
  shows "ioctl dl h fd VIDIOC_QUERYCAP arg w = Inr (ret, Some f, w1)"
proof -
  from assms(3) have "ret \<noteq> 0" by auto
  then show ?thesis by (simp add: ioctl_resolved [OF assms(1,2)])
qed

theorem failed_querycap_untouched_witness:
  "sint (- 1 :: c_int) < 0
   \<and> ioctl (Some (driver_reply (- 1) (Capability (cap_with_card ''Dummy Loopback Device''))))
        real_ioctl_initial 7 VIDIOC_QUERYCAP 4096 world0
      = Inr (- 1, Some (driver_reply (- 1) (Capability (cap_with_card ''Dummy Loopback Device''))),
             world0\<lparr>heap := (heap world0)(4096 \<mapsto>
               Capability (cap_with_card ''Dummy Loopback Device''))\<rparr>)"
proof -
  let ?f = "driver_reply (- 1) (Capability (cap_with_card ''Dummy Loopback Device''))"
  have s: "sint (- 1 :: c_int) < 0" by simp
  have h1: "init_real_ioctl (Some ?f) real_ioctl_initial = Some ?f"
    by (rule init_first)
  have h2: "?f 7 VIDIOC_QUERYCAP 4096 world0
     = (- 1, world0\<lparr>heap := (heap world0)(4096 \<mapsto>
               Capability (cap_with_card ''Dummy Loopback Device''))\<rparr>)"
    by (simp add: driver_reply_def)
  show ?thesis
    using failed_querycap_untouched [OF h1 h2 s] s by simp
qed

text \<open>
  C4 (as amended): for every successful capability query, a card array that contains
  "NekoCam" or lower-case "loopback" before its first NUL byte (anywhere in its 32 bytes
  when it holds no NUL, a NUL then following further on in memory) gets the output bit in
  both bitmask fields; a card array holding the name "USB2.0 HD UVC WebCam" does not, and
  the world is returned as the real implementation left it.
\<close>

theorem querycap_card_variants:
  assumes "init_real_ioctl dl h = Some f"
    and "f fd VIDIOC_QUERYCAP arg w = (0, w1)"
    and "heap w1 arg = Some (Capability cap)"
  shows "((sublist ''NekoCam'' (takeWhile (\<lambda>c. c \<noteq> CHR 0x00) (card cap))
            \<or> sublist ''loopback'' (takeWhile (\<lambda>c. c \<noteq> CHR 0x00) (card cap)))
          \<and> CHR 0x00 \<in> set (bytes_from_card cap @ trailing w1 arg) \<longrightarrow>
            ioctl dl h fd VIDIOC_QUERYCAP arg w =
              Inr (0, Some f, w1\<lparr>heap := (heap w1)(arg \<mapsto> Capability (add_video_output cap))\<rparr>)
            \<and> capabilities (add_video_output cap) AND V4L2_CAP_VIDEO_OUTPUT = V4L2_CAP_VIDEO_OUTPUT
            \<and> device_caps (add_video_output cap) AND V4L2_CAP_VIDEO_OUTPUT = V4L2_CAP_VIDEO_OUTPUT)
       \<and> (cstring (card cap) = Some ''USB2.0 HD UVC WebCam'' \<longrightarrow>
            ioctl dl h fd VIDIOC_QUERYCAP arg w = Inr (0, Some f, w1))"
proof -
  note step = ioctl_resolved [OF assms(1,2)]
  have pos: "ioctl dl h fd VIDIOC_QUERYCAP arg w =
        Inr (0, Some f, w1\<lparr>heap := (heap w1)(arg \<mapsto> Capability (add_video_output cap))\<rparr>)"
    if n: "sublist nd (takeWhile (\<lambda>c. c \<noteq> CHR 0x00) (card cap))"
      and nd: "nd = ''NekoCam'' \<or> nd = ''loopback''"
      and z: "CHR 0x00 \<in> set (bytes_from_card cap @ trailing w1 arg)" for nd
  proof -
    from sublist_before_nul [OF n z] obtain s
      where s: "cstring (bytes_from_card cap @ trailing w1 arg) = Some s" and l: "sublist nd s"
      by blast
    have m: "card_matches cap (trailing w1 arg) = Some True"
      using l nd by (auto simp: card_matches_string [OF s])
    show ?thesis
      using assms(3) by (simp add: step fix_capability_matches [OF m])
  qed
  have bits: "capabilities (add_video_output cap) AND V4L2_CAP_VIDEO_OUTPUT = V4L2_CAP_VIDEO_OUTPUT
      \<and> device_caps (add_video_output cap) AND V4L2_CAP_VIDEO_OUTPUT = V4L2_CAP_VIDEO_OUTPUT"
    by (simp add: add_video_output_def or_sets_mask)
  have neg: "ioctl dl h fd VIDIOC_QUERYCAP arg w = Inr (0, Some f, w1)"
    if u: "cstring (card cap) = Some ''USB2.0 HD UVC WebCam''"
  proof -
    have m: "card_matches cap (trailing w1 arg) = Some False"
      by (simp add: card_matches_string [OF cstring_in_card [OF u]] sublist_Cons_right)
    show ?thesis
      using assms(3) by (simp add: step fix_capability_matches [OF m] store_same)
  qed
  from pos bits neg show ?thesis by blast
qed

theorem querycap_card_variants_witness:
  "ioctl (Some (driver_reply 0 (Capability (cap_with_card ''NekoCam''))))
        real_ioctl_initial 7 VIDIOC_QUERYCAP 4096 world0
      = Inr (0, Some (driver_reply 0 (Capability (cap_with_card ''NekoCam''))),
             world0\<lparr>heap := (heap world0)(4096 \<mapsto> Capability
               ((cap_with_card ''NekoCam'')
                  \<lparr>capabilities := 0x85200003, device_caps := 0x05200003\<rparr>))\<rparr>)
   \<and> ioctl (Some (driver_reply 0 (Capability (cap_with_card ''v4l2loopback-000''))))
        real_ioctl_initial 7 VIDIOC_QUERYCAP 4096 world0
      = Inr (0, Some (driver_reply 0 (Capability (cap_with_card ''v4l2loopback-000''))),
             world0\<lparr>heap := (heap world0)(4096 \<mapsto> Capability
               ((cap_with_card ''v4l2loopback-000'')
                  \<lparr>capabilities := 0x85200003, device_caps := 0x05200003\<rparr>))\<rparr>)
   \<and> ioctl (Some (driver_reply 0 (Capability (cap_with_card ''USB2.0 HD UVC WebCam''))))
        real_ioctl_initial 7 VIDIOC_QUERYCAP 4096 world0
      = Inr (0, Some (driver_reply 0 (Capability (cap_with_card ''USB2.0 HD UVC WebCam''))),
             world0\<lparr>heap := (heap world0)(4096 \<mapsto> Capability
               (cap_with_card ''USB2.0 HD UVC WebCam''))\<rparr>)"
proof -
  have h1: "init_real_ioctl (Some (driver_reply 0 x)) real_ioctl_initial
      = Some (driver_reply 0 x)" for x :: obj
    by (rule init_first)
  note h2 = driver_reply_world0 [of 0 _ 7 VIDIOC_QUERYCAP 4096]
  note t = querycap_card_variants [OF h1 h2 replied_world0(1)]
  have z: "CHR 0x00 \<in> set (bytes_from_card (cap_with_card n) @ after)" for n after
    by (simp add: bytes_from_card_def cap_with_card_def)
  have n4: "sublist ''NekoCam'' (takeWhile (\<lambda>c. c \<noteq> CHR 0x00) (card (cap_with_card ''NekoCam'')))"
    by (simp add: cap_with_card_def eval_nat_numeral)
  have l4: "sublist ''loopback''
      (takeWhile (\<lambda>c. c \<noteq> CHR 0x00) (card (cap_with_card ''v4l2loopback-000'')))"
    by (simp add: cap_with_card_def eval_nat_numeral sublist_Cons_right)
  have u4: "cstring (card (cap_with_card ''USB2.0 HD UVC WebCam'')) = Some ''USB2.0 HD UVC WebCam''"
    by (simp add: cap_with_card_def eval_nat_numeral)
  from t [of "cap_with_card ''NekoCam''"] n4 z
  have "ioctl (Some (driver_reply 0 (Capability (cap_with_card ''NekoCam''))))
        real_ioctl_initial 7 VIDIOC_QUERYCAP 4096 world0
      = Inr (0, Some (driver_reply 0 (Capability (cap_with_card ''NekoCam''))),
             (world0\<lparr>heap := (heap world0)(4096 \<mapsto> Capability (cap_with_card ''NekoCam''))\<rparr>)\<lparr>heap := (heap (world0\<lparr>heap := (heap world0)(4096 \<mapsto> Capability (cap_with_card ''NekoCam''))\<rparr>))(4096 \<mapsto> Capability (add_video_output (cap_with_card ''NekoCam'')))\<rparr>)"
    by blast
  then have 1: "ioctl (Some (driver_reply 0 (Capability (cap_with_card ''NekoCam''))))
        real_ioctl_initial 7 VIDIOC_QUERYCAP 4096 world0
      = Inr (0, Some (driver_reply 0 (Capability (cap_with_card ''NekoCam''))),
             world0\<lparr>heap := (heap world0)(4096 \<mapsto> Capability
               (add_video_output (cap_with_card ''NekoCam'')))\<rparr>)"
    by simp
  from t [of "cap_with_card ''v4l2loopback-000''"] l4 z
  have "ioctl (Some (driver_reply 0 (Capability (cap_with_card ''v4l2loopback-000''))))
        real_ioctl_initial 7 VIDIOC_QUERYCAP 4096 world0
      = Inr (0, Some (driver_reply 0 (Capability (cap_with_card ''v4l2loopback-000''))),
             (world0\<lparr>heap := (heap world0)(4096 \<mapsto> Capability (cap_with_card ''v4l2loopback-000''))\<rparr>)\<lparr>heap := (heap (world0\<lparr>heap := (heap world0)(4096 \<mapsto> Capability (cap_with_card ''v4l2loopback-000''))\<rparr>))(4096 \<mapsto> Capability (add_video_output (cap_with_card ''v4l2loopback-000'')))\<rparr>)"
    by blast
  then have 2: "ioctl (Some (driver_reply 0 (Capability (cap_with_card ''v4l2loopback-000''))))
        real_ioctl_initial 7 VIDIOC_QUERYCAP 4096 world0
      = Inr (0, Some (driver_reply 0 (Capability (cap_with_card ''v4l2loopback-000''))),
             world0\<lparr>heap := (heap world0)(4096 \<mapsto> Capability
               (add_video_output (cap_with_card ''v4l2loopback-000'')))\<rparr>)"
    by simp
  from t [of "cap_with_card ''USB2.0 HD UVC WebCam''"] u4
  have "ioctl (Some (driver_reply 0 (Capability (cap_with_card ''USB2.0 HD UVC WebCam''))))
        real_ioctl_initial 7 VIDIOC_QUERYCAP 4096 world0
      = Inr (0, Some (driver_reply 0 (Capability (cap_with_card ''USB2.0 HD UVC WebCam''))),
             world0\<lparr>heap := (heap world0)(4096 \<mapsto> Capability (cap_with_card ''USB2.0 HD UVC WebCam''))\<rparr>)"
    by blast
  then have 3: "ioctl (Some (driver_reply 0 (Capability (cap_with_card ''USB2.0 HD UVC WebCam''))))
        real_ioctl_initial 7 VIDIOC_QUERYCAP 4096 world0
      = Inr (0, Some (driver_reply 0 (Capability (cap_with_card ''USB2.0 HD UVC WebCam''))),
             world0\<lparr>heap := (heap world0)(4096 \<mapsto> Capability (cap_with_card ''USB2.0 HD UVC WebCam''))\<rparr>)"
    by simp
  from 1 2 3 show ?thesis by (simp add: add_video_output_cap_with_card)
qed

text \<open>
  C4 as stated fails: the card array holding "Cam", a NUL byte, "NekoCam" and NUL bytes up
  to 32 contains "NekoCam", but the string it holds is "Cam", and the record comes back
  without the output bit in either field.
\<close>

theorem nekocam_after_nul_unpatched:
  "valid_capability stale_nekocam_cap
   \<and> sublist ''NekoCam'' (card stale_nekocam_cap)
   \<and> capabilities stale_nekocam_cap AND V4L2_CAP_VIDEO_OUTPUT = 0
   \<and> device_caps stale_nekocam_cap AND V4L2_CAP_VIDEO_OUTPUT = 0
   \<and> ioctl (Some (driver_reply 0 (Capability stale_nekocam_cap))) real_ioctl_initial
        7 VIDIOC_QUERYCAP 4096 world0
      = Inr (0, Some (driver_reply 0 (Capability stale_nekocam_cap)),
             world0\<lparr>heap := (heap world0)(4096 \<mapsto> Capability stale_nekocam_cap)\<rparr>)"
proof -
  have v: "valid_capability stale_nekocam_cap"
    by (simp add: valid_capability_def stale_nekocam_cap_def cap_with_card_def)
  have s: "sublist ''NekoCam'' (card stale_nekocam_cap)"
    by (simp add: stale_nekocam_cap_def cap_with_card_def sublist_Cons_right)
  have c: "capabilities stale_nekocam_cap AND V4L2_CAP_VIDEO_OUTPUT = 0
      \<and> device_caps stale_nekocam_cap AND V4L2_CAP_VIDEO_OUTPUT = 0"
    by (simp add: stale_nekocam_cap_def cap_with_card_def V4L2_CAP_VIDEO_OUTPUT_def)
  have "cstring (card stale_nekocam_cap) = Some ''Cam''"
    by (simp add: stale_nekocam_cap_def cap_with_card_def)
  then have "cstring (bytes_from_card stale_nekocam_cap @ after) = Some ''Cam''" for after
    by (rule cstring_in_card)
  then have m: "fix_capability stale_nekocam_cap after = Inr stale_nekocam_cap" for after
    by (simp add: fix_capability_def card_matches_def strstr_found_iff sublist_Cons_right)
  have "ioctl (Some (driver_reply 0 (Capability stale_nekocam_cap))) real_ioctl_initial
        7 VIDIOC_QUERYCAP 4096 world0
      = Inr (0, Some (driver_reply 0 (Capability stale_nekocam_cap)),
             world0\<lparr>heap := (heap world0)(4096 \<mapsto> Capability stale_nekocam_cap)\<rparr>)"
    by (simp add: ioctl_def init_real_ioctl_def real_ioctl_initial_def driver_reply_def m)
  with v s c show ?thesis by simp
qed

text \<open>
  C5: on a successful capability query whose card test gives \<open>m\<close> (it gives a result
  whenever the read from \<open>card\<close> meets a NUL, inside the array or after it), the record left
  at the argument pointer has, when \<open>m\<close> holds, each bitmask field equal to the old value
  ORed with \<open>V4L2_CAP_VIDEO_OUTPUT\<close>; a capture bit set before is then set together with
  the output bit; and in either case every bit set before is set afterwards.
\<close>

theorem matching_mutation_is_or:
  assumes "init_real_ioctl dl h = Some f"
    and "f fd VIDIOC_QUERYCAP arg w = (0, w1)"
    and "heap w1 arg = Some (Capability cap)"
    and "card_matches cap (trailing w1 arg) = Some m"
  shows "\<exists>cap'. ioctl dl h fd VIDIOC_QUERYCAP arg w =
             Inr (0, Some f, w1\<lparr>heap := (heap w1)(arg \<mapsto> Capability cap')\<rparr>)
         \<and> (m \<longrightarrow> capabilities cap' = capabilities cap OR V4L2_CAP_VIDEO_OUTPUT
                \<and> device_caps cap' = device_caps cap OR V4L2_CAP_VIDEO_OUTPUT
                \<and> (capabilities cap AND V4L2_CAP_VIDEO_CAPTURE = V4L2_CAP_VIDEO_CAPTURE \<longrightarrow>
                     capabilities cap' AND V4L2_CAP_VIDEO_CAPTURE = V4L2_CAP_VIDEO_CAPTURE
                     \<and> capabilities cap' AND V4L2_CAP_VIDEO_OUTPUT = V4L2_CAP_VIDEO_OUTPUT))
         \<and> capabilities cap AND capabilities cap' = capabilities cap
         \<and> device_caps cap AND device_caps cap' = device_caps cap"
proof -
  let ?c = "if m then add_video_output cap else cap"
  have step: "ioctl dl h fd VIDIOC_QUERYCAP arg w =
      Inr (0, Some f, w1\<lparr>heap := (heap w1)(arg \<mapsto> Capability ?c)\<rparr>)"
    using assms(3) by (simp add: ioctl_resolved [OF assms(1,2)] fix_capability_matches [OF assms(4)])
  have "(m \<longrightarrow> capabilities ?c = capabilities cap OR V4L2_CAP_VIDEO_OUTPUT
                \<and> device_caps ?c = device_caps cap OR V4L2_CAP_VIDEO_OUTPUT
                \<and> (capabilities cap AND V4L2_CAP_VIDEO_CAPTURE = V4L2_CAP_VIDEO_CAPTURE \<longrightarrow>
                     capabilities ?c AND V4L2_CAP_VIDEO_CAPTURE = V4L2_CAP_VIDEO_CAPTURE
                     \<and> capabilities ?c AND V4L2_CAP_VIDEO_OUTPUT = V4L2_CAP_VIDEO_OUTPUT))
         \<and> capabilities cap AND capabilities ?c = capabilities cap
         \<and> device_caps cap AND device_caps ?c = device_caps cap"
    by (simp add: add_video_output_def or_sets_mask or_keeps_old and_or_keeps)
  with step show ?thesis by blast
qed

theorem matching_mutation_is_or_witness:
  "card_matches full_length_cap [] = Some True
   \<and> capabilities full_length_cap AND V4L2_CAP_VIDEO_CAPTURE = V4L2_CAP_VIDEO_CAPTURE
   \<and> (\<exists>cap'. ioctl (Some (driver_reply 0 (Capability full_length_cap)))
          real_ioctl_initial 7 VIDIOC_QUERYCAP 4096 world0
        = Inr (0, Some (driver_reply 0 (Capability full_length_cap)),
               world0\<lparr>heap := (heap world0)(4096 \<mapsto> Capability cap')\<rparr>)
      \<and> capabilities cap' = 0x85200003 \<and> device_caps cap' = 0x05200003
      \<and> capabilities cap' AND V4L2_CAP_VIDEO_CAPTURE = V4L2_CAP_VIDEO_CAPTURE
      \<and> capabilities cap' AND V4L2_CAP_VIDEO_OUTPUT = V4L2_CAP_VIDEO_OUTPUT)"
proof -
  let ?c = "full_length_cap"
  let ?f = "driver_reply 0 (Capability ?c)"
  let ?w1 = "world0\<lparr>heap := (heap world0)(4096 \<mapsto> Capability ?c)\<rparr>"
  have h1: "init_real_ioctl (Some ?f) real_ioctl_initial = Some ?f"
    by (rule init_first)
  have h2: "?f 7 VIDIOC_QUERYCAP 4096 world0 = (0, ?w1)"
    by (rule driver_reply_world0)
  have h3: "heap ?w1 4096 = Some (Capability ?c)"
    by (rule replied_world0)
  have m: "card_matches ?c [] = Some True"
    by (simp add: card_matches_string [OF cstring_full_length_cap] sublist_Cons_right)
  then have h4: "card_matches ?c (trailing ?w1 4096) = Some True"
    by (simp add: trailing_world0)
  have capt: "capabilities ?c AND V4L2_CAP_VIDEO_CAPTURE = V4L2_CAP_VIDEO_CAPTURE"
    by (simp add: full_length_cap_def cap_with_card_def V4L2_CAP_VIDEO_CAPTURE_def)
  have old: "capabilities ?c OR V4L2_CAP_VIDEO_OUTPUT = 0x85200003
      \<and> device_caps ?c OR V4L2_CAP_VIDEO_OUTPUT = 0x05200003"
    by (simp add: full_length_cap_def cap_with_card_def V4L2_CAP_VIDEO_OUTPUT_def)
  from matching_mutation_is_or [OF h1 h2 h3 h4] capt
  obtain cap' where r: "ioctl (Some ?f) real_ioctl_initial 7 VIDIOC_QUERYCAP 4096 world0
        = Inr (0, Some ?f, ?w1\<lparr>heap := (heap ?w1)(4096 \<mapsto> Capability cap')\<rparr>)"
      and c1: "capabilities cap' = capabilities ?c OR V4L2_CAP_VIDEO_OUTPUT"
      and c2: "device_caps cap' = device_caps ?c OR V4L2_CAP_VIDEO_OUTPUT"
      and c3: "capabilities cap' AND V4L2_CAP_VIDEO_CAPTURE = V4L2_CAP_VIDEO_CAPTURE"
      and c4: "capabilities cap' AND V4L2_CAP_VIDEO_OUTPUT = V4L2_CAP_VIDEO_OUTPUT"
    by auto
  from r have r': "ioctl (Some ?f) real_ioctl_initial 7 VIDIOC_QUERYCAP 4096 world0
        = Inr (0, Some ?f, world0\<lparr>heap := (heap world0)(4096 \<mapsto> Capability cap')\<rparr>)"
    by simp
  from c1 c2 old have "capabilities cap' = 0x85200003 \<and> device_caps cap' = 0x05200003"
    by simp
  with r' c3 c4 m capt show ?thesis by blast
qed

text \<open>
  C6: with a resolved delegate that returns \<open>ret\<close>, every status the shim returns is \<open>ret\<close>;
  the shim does return \<open>ret\<close> when the delegate fails or the request is not the capability
  query, and on a capability query whose card test gives a result, matched (mutation
  applied) or not; and it returns nothing only on a successful capability query whose
  argument does not point to a record or whose read from \<open>card\<close> meets no NUL in memory.
\<close>

theorem ioctl_returns_delegate_status:
  assumes "init_real_ioctl dl h = Some f"
    and "f fd request arg w = (ret, w1)"
  shows "(\<forall>r h' w'. ioctl dl h fd request arg w = Inr (r, h', w') \<longrightarrow> r = ret)
       \<and> (ret \<noteq> 0 \<or> request \<noteq> VIDIOC_QUERYCAP \<longrightarrow>
            ioctl dl h fd request arg w = Inr (ret, Some f, w1))
       \<and> (\<forall>cap m. heap w1 arg = Some (Capability cap)
              \<and> card_matches cap (trailing w1 arg) = Some m \<longrightarrow>
            (\<exists>w'. ioctl dl h fd request arg w = Inr (ret, Some f, w')))
       \<and> ((\<exists>e. ioctl dl h fd request arg w = Inl e) =
            (ret = 0 \<and> request = VIDIOC_QUERYCAP
             \<and> (\<forall>cap. heap w1 arg = Some (Capability cap) \<longrightarrow>
                   CHR 0x00 \<notin> set (bytes_from_card cap @ trailing w1 arg))))"
proof -
  note step = ioctl_resolved [OF assms]
  have a: "\<forall>r h' w'. ioctl dl h fd request arg w = Inr (r, h', w') \<longrightarrow> r = ret"
    by (auto simp: step split: if_splits option.splits obj.splits sum.splits)
  have b: "ret \<noteq> 0 \<or> request \<noteq> VIDIOC_QUERYCAP \<longrightarrow>
      ioctl dl h fd request arg w = Inr (ret, Some f, w1)"
    by (auto simp: step)
  have c: "\<exists>w'. ioctl dl h fd request arg w = Inr (ret, Some f, w')"
    if "heap w1 arg = Some (Capability cap)" and "card_matches cap (trailing w1 arg) = Some m"
    for cap m
    using that by (simp add: step fix_capability_matches)
  have d: "(\<exists>e. ioctl dl h fd request arg w = Inl e) =
            (ret = 0 \<and> request = VIDIOC_QUERYCAP
             \<and> (\<forall>cap. heap w1 arg = Some (Capability cap) \<longrightarrow>
                   CHR 0x00 \<notin> set (bytes_from_card cap @ trailing w1 arg)))"
    by (auto simp: step fix_capability_cases split: option.splits obj.splits)
  from a b c d show ?thesis by blast
qed

theorem ioctl_returns_delegate_status_witness:
  "(\<exists>w'. ioctl (Some (driver_reply 0 (Capability full_length_cap)))
        real_ioctl_initial 7 VIDIOC_QUERYCAP 4096 world0
      = Inr (0, Some (driver_reply 0 (Capability full_length_cap)), w'))
   \<and> (\<exists>w'. ioctl (Some (driver_reply 0 (Capability (cap_with_card ''USB2.0 HD UVC WebCam''))))
        real_ioctl_initial 7 VIDIOC_QUERYCAP 4096 world0
      = Inr (0, Some (driver_reply 0 (Capability (cap_with_card ''USB2.0 HD UVC WebCam''))), w'))
   \<and> ioctl (Some (driver_reply (- 1) (Bytes []))) real_ioctl_initial 7 VIDIOC_QUERYCAP 4096 world0
      = Inr (- 1, Some (driver_reply (- 1) (Bytes [])),
             world0\<lparr>heap := (heap world0)(4096 \<mapsto> Bytes [])\<rparr>)
   \<and> (\<exists>e. ioctl (Some (driver_reply 0 (Bytes []))) real_ioctl_initial 7 VIDIOC_QUERYCAP 4096 world0
      = Inl e)"
proof -
  have h1: "init_real_ioctl (Some (driver_reply r x)) real_ioctl_initial
      = Some (driver_reply r x)" for r and x :: obj
    by (rule init_first)
  note h2 = driver_reply_world0 [of _ _ 7 VIDIOC_QUERYCAP 4096]
  have m1: "card_matches full_length_cap
      (trailing (world0\<lparr>heap := (heap world0)(4096 \<mapsto> Capability full_length_cap)\<rparr>) 4096)
      = Some True"
    by (simp add: card_matches_string [OF cstring_full_length_cap] sublist_Cons_right
        trailing_world0)
  have m2: "card_matches (cap_with_card ''USB2.0 HD UVC WebCam'')
      (trailing (world0\<lparr>heap := (heap world0)(4096 \<mapsto>
         Capability (cap_with_card ''USB2.0 HD UVC WebCam''))\<rparr>) 4096) = Some False"
    by (simp add: card_matches_named sublist_Cons_right)
  note t1 = ioctl_returns_delegate_status [OF h1 h2, of 0 "Capability full_length_cap"]
  note t2 = ioctl_returns_delegate_status [OF h1 h2,
      of 0 "Capability (cap_with_card ''USB2.0 HD UVC WebCam'')"]
  note t3 = ioctl_returns_delegate_status [OF h1 h2, of "- 1" "Bytes []"]
  note t4 = ioctl_returns_delegate_status [OF h1 h2, of 0 "Bytes []"]
  have 1: "\<exists>w'. ioctl (Some (driver_reply 0 (Capability full_length_cap)))
        real_ioctl_initial 7 VIDIOC_QUERYCAP 4096 world0
      = Inr (0, Some (driver_reply 0 (Capability full_length_cap)), w')"
    using t1 m1 replied_world0(1) by blast
  have 2: "\<exists>w'. ioctl (Some (driver_reply 0 (Capability (cap_with_card ''USB2.0 HD UVC WebCam''))))
        real_ioctl_initial 7 VIDIOC_QUERYCAP 4096 world0
      = Inr (0, Some (driver_reply 0 (Capability (cap_with_card ''USB2.0 HD UVC WebCam''))), w')"
    using t2 m2 replied_world0(1) by blast
  have 3: "ioctl (Some (driver_reply (- 1) (Bytes []))) real_ioctl_initial 7 VIDIOC_QUERYCAP 4096 world0
      = Inr (- 1, Some (driver_reply (- 1) (Bytes [])),
             world0\<lparr>heap := (heap world0)(4096 \<mapsto> Bytes [])\<rparr>)"
    using t3 by simp
  have "\<forall>cap. heap (world0\<lparr>heap := (heap world0)(4096 \<mapsto> Bytes [])\<rparr>) 4096
      = Some (Capability cap) \<longrightarrow> CHR 0x00 \<notin> set (bytes_from_card cap
        @ trailing (world0\<lparr>heap := (heap world0)(4096 \<mapsto> Bytes [])\<rparr>) 4096)"
    by simp
  with t4 have 4: "\<exists>e. ioctl (Some (driver_reply 0 (Bytes []))) real_ioctl_initial 7
      VIDIOC_QUERYCAP 4096 world0 = Inl e"
    by blast
  from 1 2 3 4 show ?thesis by blast
qed

text \<open>
  C7: the pointer starts null; the resolver assigns it only when it is null and leaves a
  non-null pointer as it is, however often it runs; from the start, any number of
  resolutions end at the first non-null result of \<open>dlsym\<close>. A first call that resolves
  \<open>f\<close> does what a call with the pointer already \<open>f\<close> does, whatever \<open>dlsym\<close> would return
  by then: its status is the status \<open>f\<close> returns, the pointer stays \<open>f\<close>, and the world is the
  one \<open>f\<close> left, up to the record at the argument pointer (it is \<open>f\<close>'s result exactly when
  \<open>f\<close> fails or the request is not the capability query). Any run of calls with the
  pointer \<open>f\<close> ends with the pointer \<open>f\<close>.
\<close>

theorem real_ioctl_write_once:
  "(real_ioctl_initial :: 'k handle) = None
   \<and> init_real_ioctl d None = d
   \<and> init_real_ioctl d (Some f) = Some f
   \<and> resolve_all ds (Some f) = Some f
   \<and> resolve_all ds real_ioctl_initial
       = (case find not_null ds of None \<Rightarrow> None | Some d' \<Rightarrow> d')
   \<and> ioctl (Some f) real_ioctl_initial fd request arg w = ioctl d (Some f) fd request arg w
   \<and> (\<forall>r h' w'. ioctl d (Some f) fd request arg w = Inr (r, h', w') \<longrightarrow>
         r = fst (f fd request arg w) \<and> h' = Some f
         \<and> rest w' = rest (snd (f fd request arg w))
         \<and> trailing w' = trailing (snd (f fd request arg w))
         \<and> (\<forall>p. p \<noteq> arg \<longrightarrow> heap w' p = heap (snd (f fd request arg w)) p))
   \<and> (fst (f fd request arg w) \<noteq> 0 \<or> request \<noteq> VIDIOC_QUERYCAP \<longrightarrow>
         ioctl d (Some f) fd request arg w
           = Inr (fst (f fd request arg w), Some f, snd (f fd request arg w)))
   \<and> (\<forall>rs h' w'. ioctl_calls (Some f) w cs = Inr (rs, h', w') \<longrightarrow> h' = Some f)
   \<and> ioctl_calls real_ioctl_initial w ((Some f, fd, request, arg) # cs)
       = ioctl_calls (Some f) w ((d, fd, request, arg) # cs)"
proof -
  have i: "(real_ioctl_initial :: 'k handle) = None"
    by (simp add: real_ioctl_initial_def)
  have a: "init_real_ioctl d None = d"
    by (simp add: init_real_ioctl_def)
  have b: "resolve_all ds real_ioctl_initial
       = (case find not_null ds of None \<Rightarrow> None | Some d' \<Rightarrow> d')"
    by (simp add: real_ioctl_initial_def resolve_all_first)
  have c: "\<forall>r h' w'. ioctl d (Some f) fd request arg w = Inr (r, h', w') \<longrightarrow>
         r = fst (f fd request arg w) \<and> h' = Some f
         \<and> rest w' = rest (snd (f fd request arg w))
         \<and> trailing w' = trailing (snd (f fd request arg w))
         \<and> (\<forall>p. p \<noteq> arg \<longrightarrow> heap w' p = heap (snd (f fd request arg w)) p)"
    using ioctl_forwards [of d f fd request arg w] by blast
  have e: "\<forall>rs h' w'. ioctl_calls (Some f) w cs = Inr (rs, h', w') \<longrightarrow> h' = Some f"
    by (blast dest: ioctl_calls_keep_handle)
  have g: "fst (f fd request arg w) \<noteq> 0 \<or> request \<noteq> VIDIOC_QUERYCAP \<longrightarrow>
         ioctl d (Some f) fd request arg w
           = Inr (fst (f fd request arg w), Some f, snd (f fd request arg w))"
    using ioctl_forwards_plain [of f fd request arg w d] by blast
  from i a init_resolved [of d f] resolve_all_resolved [of ds f] b
    ioctl_first_call [of f fd request arg w d] c g e
    ioctl_calls_first_call [of w f fd request arg cs d]
  show ?thesis by blast
qed

theorem real_ioctl_write_once_witness:
  "resolve_all [None, Some (driver_reply 5 (Bytes [])), Some (driver_reply 1 (Bytes [])), None]
       real_ioctl_initial = Some (driver_reply 5 (Bytes []))
   \<and> resolve_all [Some (driver_reply 1 (Bytes [])), None] (Some (driver_reply 5 (Bytes [])))
       = Some (driver_reply 5 (Bytes []))
   \<and> ioctl (Some (driver_reply 1 (Bytes []))) (Some (driver_reply 5 (Bytes [])))
         7 VIDIOC_QUERYCAP 4096 world0
       = Inr (5, Some (driver_reply 5 (Bytes [])),
              world0\<lparr>heap := (heap world0)(4096 \<mapsto> Bytes [])\<rparr>)
   \<and> ioctl (Some (driver_reply 5 (Bytes []))) real_ioctl_initial 7 VIDIOC_QUERYCAP 4096 world0
       = Inr (5, Some (driver_reply 5 (Bytes [])),
              world0\<lparr>heap := (heap world0)(4096 \<mapsto> Bytes [])\<rparr>)"
proof -
  let ?f = "driver_reply 5 (Bytes [])"
  let ?g = "driver_reply 1 (Bytes [])"
  have f: "?f 7 VIDIOC_QUERYCAP 4096 world0
      = (5, world0\<lparr>heap := (heap world0)(4096 \<mapsto> Bytes [])\<rparr>)"
    by (rule driver_reply_world0)
  from real_ioctl_write_once [where ds = "[None, Some ?f, Some ?g, None]" and f = ?f
      and d = None and fd = 7 and request = 0 and arg = 0 and w = world0 and cs = "[]"]
  have "resolve_all [None, Some ?f, Some ?g, None] real_ioctl_initial
      = (case find not_null [None, Some ?f, Some ?g, None] of None \<Rightarrow> None | Some d' \<Rightarrow> d')"
    by blast
  then have 1: "resolve_all [None, Some ?f, Some ?g, None] real_ioctl_initial = Some ?f"
    by simp
  from real_ioctl_write_once [where ds = "[Some ?g, None]" and f = ?f
      and d = None and fd = 7 and request = 0 and arg = 0 and w = world0 and cs = "[]"]
  have 2: "resolve_all [Some ?g, None] (Some ?f) = Some ?f"
    by blast
  note t = real_ioctl_write_once [where f = ?f and d = "Some ?g" and fd = 7
      and request = VIDIOC_QUERYCAP and arg = 4096 and w = world0 and cs = "[]" and ds = "[]"]
  have nz: "fst (?f 7 VIDIOC_QUERYCAP 4096 world0) \<noteq> 0 \<or> VIDIOC_QUERYCAP \<noteq> VIDIOC_QUERYCAP"
    by (simp add: f)
  with t have "ioctl (Some ?g) (Some ?f) 7 VIDIOC_QUERYCAP 4096 world0
      = Inr (fst (?f 7 VIDIOC_QUERYCAP 4096 world0), Some ?f, snd (?f 7 VIDIOC_QUERYCAP 4096 world0))"
    by blast
  then have 3: "ioctl (Some ?g) (Some ?f) 7 VIDIOC_QUERYCAP 4096 world0
      = Inr (5, Some ?f, world0\<lparr>heap := (heap world0)(4096 \<mapsto> Bytes [])\<rparr>)"
    by (simp add: f)
  from t have "ioctl (Some ?f) real_ioctl_initial 7 VIDIOC_QUERYCAP 4096 world0
      = ioctl (Some ?g) (Some ?f) 7 VIDIOC_QUERYCAP 4096 world0"
    by blast
  with 3 have 4: "ioctl (Some ?f) real_ioctl_initial 7 VIDIOC_QUERYCAP 4096 world0
      = Inr (5, Some ?f, world0\<lparr>heap := (heap world0)(4096 \<mapsto> Bytes [])\<rparr>)"
    by simp
  from 1 2 3 4 show ?thesis by blast
qed

text \<open>
  C8: when the resolver leaves the pointer null, the call, whatever its arguments, goes
  through the null pointer: nothing between the resolver and the forwarding call tests
  it. That call is undefined behaviour, the fault \<open>NullCall\<close> here, and it ends the run.
\<close>

theorem null_delegate_called_unguarded:
  assumes "init_real_ioctl dl h = None"
  shows "ioctl dl h fd request arg w = Inl NullCall
       \<and> ioctl_calls h w ((dl, fd, request, arg) # cs) = Inl NullCall"
  using assms by (simp add: ioctl_def)

theorem null_delegate_called_unguarded_witness:
  "init_real_ioctl None real_ioctl_initial = (None :: unit handle)
   \<and> ioctl None real_ioctl_initial 7 VIDIOC_QUERYCAP 4096 world0 = Inl NullCall
   \<and> ioctl_calls real_ioctl_initial world0 [(None, 7, VIDIOC_QUERYCAP, 4096), (None, 7, 0xC0D05604, 4096)]
       = Inl NullCall"
proof -
  have h: "init_real_ioctl None real_ioctl_initial = (None :: unit handle)"
    by (simp add: init_real_ioctl_def real_ioctl_initial_def)
  show ?thesis
    using null_delegate_called_unguarded [OF h, of 7 VIDIOC_QUERYCAP 4096 world0
        "[(None, 7, 0xC0D05604, 4096)]"] h
    by simp
qed

text \<open>
  C9: for any status other than 0 from the real implementation, positive ones included,
  and any request code, the shim returns that status and the world as the real
  implementation left it.
\<close>

theorem nonzero_status_no_mutation:
  assumes "init_real_ioctl dl h = Some f"
    and "f fd request arg w = (ret, w1)"
    and "ret \<noteq> 0"
  shows "ioctl dl h fd request arg w = Inr (ret, Some f, w1)"
  using assms(3) by (simp add: ioctl_resolved [OF assms(1,2)])

theorem nonzero_status_no_mutation_witness:
  "(1 :: c_int) \<noteq> 0 
   \<and> ioctl (Some (driver_reply 1 (Capability (cap_with_card ''Dummy Loopback Device''))))
        real_ioctl_initial 7 VIDIOC_QUERYCAP 4096 world0
      = Inr (1, Some (driver_reply 1 (Capability (cap_with_card ''Dummy Loopback Device''))),
             world0\<lparr>heap := (heap world0)(4096 \<mapsto>
               Capability (cap_with_card ''Dummy Loopback Device''))\<rparr>)"
proof -
  let ?f = "driver_reply 1 (Capability (cap_with_card ''Dummy Loopback Device''))"
  have s: "(1 :: c_int) \<noteq> 0" by simp
  have h1: "init_real_ioctl (Some ?f) real_ioctl_initial = Some ?f"
    by (rule init_first)
  have h2: "?f 7 VIDIOC_QUERYCAP 4096 world0
     = (1, world0\<lparr>heap := (heap world0)(4096 \<mapsto>
               Capability (cap_with_card ''Dummy Loopback Device''))\<rparr>)"
    by (simp add: driver_reply_def)
  show ?thesis
    using nonzero_status_no_mutation [OF h1 h2 s] s by simp
qed



end
